theory Spec2Isabelle
  imports Main "HOL-Library.Sublist"
begin

section \<open>The todo store of src/index.js\<close>

text \<open>
  The program keeps one PostgreSQL table,
  \<^verbatim>\<open>todos (id SERIAL PRIMARY KEY, content TEXT NOT NULL, status TEXT DEFAULT 'active')\<close>,
  and five tool functions that each run one SQL statement on it. The embedding models the
  table as the list of its rows together with the counter of the sequence behind
  \<^verbatim>\<open>SERIAL\<close>, every statement as a function on that state, and the strings the tools
  hand back as HOL strings.

  Scope of the model. Characters are HOL's 8-bit \<open>char\<close>; case folding therefore covers
  the ASCII letters. The status column only ever receives the two literals the program
  writes, so it is a two-valued datatype. A lost connection and text the database refuses
  to store are outside the model; the two storage errors that depend on the arguments of an
  operation (an id outside the range of the column type, an exhausted or colliding sequence
  value) are results of the model. A \<^verbatim>\<open>SELECT\<close> without \<^verbatim>\<open>ORDER BY\<close> returns its rows in
  the order of the list, and an \<^verbatim>\<open>UPDATE\<close> leaves every row at its position; SQL
  leaves both open.
\<close>

subsection \<open>Rows and table\<close>

datatype status = Active | Deleted

record todo =
  todo_id :: int
  content :: string
  status :: status

record store =
  todos :: "todo list"
  todos_id_seq :: int

datatype error = IdOutOfRange | SequenceExhausted | UniqueViolation

definition int4_max :: int where
  "int4_max = 2147483647"

definition int4_min :: int where
  "int4_min = - 2147483648"

definition empty_store :: store where
  "empty_store = \<lparr>todos = [], todos_id_seq = 1\<rparr>"

subsection \<open>Pattern matching of \<^verbatim>\<open>ILIKE\<close>\<close>

text \<open>
  The three statements with a keyword compare \<^verbatim>\<open>content ILIKE $1\<close> where the parameter
  is \<^verbatim>\<open>`%${keyword}%`\<close>. In a \<^verbatim>\<open>LIKE\<close> pattern \<^verbatim>\<open>%\<close> stands for any run of characters,
  \<^verbatim>\<open>_\<close> for any one character, and a backslash makes the character after it literal;
  \<^verbatim>\<open>ILIKE\<close> is the same comparison after folding the case of both sides. The keyword is
  pasted into the pattern as it is, so these characters keep their meaning inside it.
\<close>

definition to_lower :: "char \<Rightarrow> char" where
  "to_lower c = (let n = (of_char c :: nat) in if 65 \<le> n \<and> n \<le> 90 then char_of (n + 32) else c)"

fun like_match :: "string \<Rightarrow> string \<Rightarrow> bool" where
  "like_match [] t = (t = [])"
| "like_match (p # ps) [] = (p = CHR ''%'' \<and> like_match ps [])"
| "like_match (p # ps) (c # cs) =
     (if p = CHR ''%'' then like_match ps (c # cs) \<or> like_match (p # ps) cs
      else if p = CHR ''_'' then like_match ps cs
      else if p = CHR 0x5C then (case ps of [] \<Rightarrow> False | q # qs \<Rightarrow> q = c \<and> like_match qs cs)
      else p = c \<and> like_match ps cs)"

definition ilike :: "string \<Rightarrow> string \<Rightarrow> bool" where
  "ilike t p = like_match (map to_lower p) (map to_lower t)"

definition keyword_pattern :: "string \<Rightarrow> string" where
  "keyword_pattern keyword = ''%'' @ keyword @ ''%''"

text \<open>
  PostgreSQL rejects a pattern whose last character is an unpaired backslash when the
  comparison reaches it. \<open>like_match\<close> has no such branch, because a pattern built by
  \<open>keyword_pattern\<close> ends in \<^verbatim>\<open>%\<close> and so never ends in an unpaired backslash
  (lemma \<open>keyword_pattern_closed\<close> below).
\<close>

fun ends_in_escape :: "string \<Rightarrow> bool" where
  "ends_in_escape [] = False"
| "ends_in_escape [p] = (p = CHR 0x5C)"
| "ends_in_escape (p # q # ps) = (if p = CHR 0x5C then ends_in_escape ps else ends_in_escape (q # ps))"

text \<open>The property the specification names: the keyword occurs in the content, up to case.\<close>

definition contains_ci :: "string \<Rightarrow> string \<Rightarrow> bool" where
  "contains_ci c k = sublist (map to_lower k) (map to_lower c)"

definition wildcard_free :: "string \<Rightarrow> bool" where
  "wildcard_free k = (\<forall>x \<in> set k. x \<noteq> CHR ''%'' \<and> x \<noteq> CHR ''_'' \<and> x \<noteq> CHR 0x5C)"

subsection \<open>\<^verbatim>\<open>parseInt\<close> and the text of numbers\<close>

text \<open>
  \<^verbatim>\<open>parseInt(s)\<close> without a radix skips leading white space, takes an optional sign, takes
  \<^verbatim>\<open>0x\<close> or \<^verbatim>\<open>0X\<close> as the mark of radix 16 and otherwise reads radix 10, and converts the
  longest run of digits that follows; with no digit there the result is \<^verbatim>\<open>NaN\<close>, here
  \<open>None\<close>. Of the white space of ECMAScript the model has the characters below 256. The
  model returns the exact integer of the digits. The value of JavaScript is that integer
  rounded to a double (\<^verbatim>\<open>Infinity\<close> for a very long run of digits): the two are equal
  within the range of the id column, and where they differ both lie outside that range, where
  the database refuses the parameter (\<open>select_by_id\<close>). So the exact integer decides the
  result of Search as the value of JavaScript does, and it stands for that value within
  the range of the id column only.
\<close>

definition is_white_space :: "char \<Rightarrow> bool" where
  "is_white_space c = ((of_char c :: nat) \<in> {9, 10, 11, 12, 13, 32, 160})"

definition digit_value :: "char \<Rightarrow> nat option" where
  "digit_value c = (let n = (of_char c :: nat) in
     if 48 \<le> n \<and> n \<le> 57 then Some (n - 48)
     else if 97 \<le> n \<and> n \<le> 122 then Some (n - 87)
     else if 65 \<le> n \<and> n \<le> 90 then Some (n - 55)
     else None)"

definition is_radix_digit :: "nat \<Rightarrow> char \<Rightarrow> bool" where
  "is_radix_digit R c = (case digit_value c of Some d \<Rightarrow> d < R | None \<Rightarrow> False)"

definition radix_value :: "nat \<Rightarrow> string \<Rightarrow> nat" where
  "radix_value R z = foldl (\<lambda>a c. a * R + (case digit_value c of Some d \<Rightarrow> d | None \<Rightarrow> 0)) 0 z"

definition parseInt :: "string \<Rightarrow> int option" where
  "parseInt input =
     (let s = dropWhile is_white_space input;
          sign = (if s \<noteq> [] \<and> hd s = CHR ''-'' then - 1 else 1);
          s1 = (if s \<noteq> [] \<and> (hd s = CHR ''+'' \<or> hd s = CHR ''-'') then tl s else s);
          hex = (take 2 s1 = ''0x'' \<or> take 2 s1 = ''0X'');
          R = (if hex then 16 else 10);
          s2 = (if hex then drop 2 s1 else s1);
          z = takeWhile (is_radix_digit R) s2
      in if z = [] then None else Some (sign * int (radix_value R z)))"

fun show_nat :: "nat \<Rightarrow> string" where
  "show_nat n = (if n < 10 then [char_of (48 + n)] else show_nat (n div 10) @ [char_of (48 + n mod 10)])"

declare show_nat.simps [simp del]

definition show_int :: "int \<Rightarrow> string" where
  "show_int i = (if i < 0 then ''-'' @ show_nat (nat (- i)) else show_nat (nat i))"

subsection \<open>The statements\<close>

text \<open>
  \<^verbatim>\<open>INSERT INTO todos (content) VALUES ($1)\<close>: the id is the next value of the sequence
  and the status the column default. The sequence of a \<^verbatim>\<open>SERIAL\<close> column stops at the
  largest value of the column type; a value already taken as a key is refused by the
  primary key, after the sequence has advanced.
\<close>

definition insert_todo :: "string \<Rightarrow> store \<Rightarrow> error option \<times> store" where
  "insert_todo c db =
     (let n = todos_id_seq db in
      if int4_max < n then (Some SequenceExhausted, db)
      else if n \<in> todo_id ` set (todos db)
      then (Some UniqueViolation, db\<lparr>todos_id_seq := n + 1\<rparr>)
      else (None, \<lparr>todos = todos db @ [\<lparr>todo_id = n, content = c, status = Active\<rparr>],
                   todos_id_seq = n + 1\<rparr>))"

text \<open>
  \<^verbatim>\<open>UPDATE todos SET status=... WHERE ... RETURNING *\<close>: the row count is the number of rows
  the condition selects, and each of them gets the new status.
\<close>

definition update_status :: "(todo \<Rightarrow> bool) \<Rightarrow> status \<Rightarrow> store \<Rightarrow> nat \<times> store" where
  "update_status cond st db =
     (length (filter cond (todos db)),
      db\<lparr>todos := map (\<lambda>r. if cond r then r\<lparr>status := st\<rparr> else r) (todos db)\<rparr>)"

text \<open>\<^verbatim>\<open>SELECT * FROM todos WHERE id=$1\<close>, the parameter being read as a value of the id column.\<close>

definition select_by_id :: "int \<Rightarrow> store \<Rightarrow> error + todo list" where
  "select_by_id idNum db =
     (if int4_min \<le> idNum \<and> idNum \<le> int4_max
      then Inr (filter (\<lambda>r. todo_id r = idNum) (todos db))
      else Inl IdOutOfRange)"

definition select_active_like :: "string \<Rightarrow> store \<Rightarrow> todo list" where
  "select_active_like pat db =
     filter (\<lambda>r. ilike (content r) pat \<and> status r = Active) (todos db)"

definition select_ordered :: "bool \<Rightarrow> store \<Rightarrow> todo list" where
  "select_ordered showAll db =
     sort_key (\<lambda>r. - todo_id r)
       (if showAll then todos db else filter (\<lambda>r. status r = Active) (todos db))"

subsection \<open>The five tools\<close>

definition show_status :: "status \<Rightarrow> string" where
  "show_status st = (case st of Active \<Rightarrow> ''active'' | Deleted \<Rightarrow> ''deleted'')"

definition render_row :: "todo \<Rightarrow> string" where
  "render_row r = ''#'' @ show_int (todo_id r) @ '' - '' @ content r @ '' ['' @ show_status (status r) @ '']''"

fun join_lines :: "string list \<Rightarrow> string" where
  "join_lines [] = []"
| "join_lines [l] = l"
| "join_lines (l # m # ls) = l @ [CHR 0x0A] @ join_lines (m # ls)"

definition render_rows :: "todo list \<Rightarrow> string" where
  "render_rows rs = (if 0 < length rs then join_lines (map render_row rs) else ''No todos found.'')"

definition addTodo :: "string \<Rightarrow> store \<Rightarrow> (error + string) \<times> store" where
  "addTodo c db =
     (let (failure, db') = insert_todo c db in
      (case failure of
         Some e \<Rightarrow> Inl e
       | None \<Rightarrow> Inr (''Added: '' @ [CHR 0x22] @ c @ [CHR 0x22]), db'))"

definition deleteTodo_res :: "string \<Rightarrow> store \<Rightarrow> nat \<times> store" where
  "deleteTodo_res keyword db =
     update_status (\<lambda>r. ilike (content r) (keyword_pattern keyword)) Deleted db"

definition deleteTodo :: "string \<Rightarrow> store \<Rightarrow> (error + string) \<times> store" where
  "deleteTodo keyword db =
     (let (rowCount, db') = deleteTodo_res keyword db in
      (Inr (if 0 < rowCount then ''Deleted '' @ show_nat rowCount @ '' item(s)''
            else ''No matching todos found.''), db'))"

definition searchTodo_res :: "string \<Rightarrow> store \<Rightarrow> error + todo list" where
  "searchTodo_res keywordOrId db =
     (case parseInt keywordOrId of
        Some idNum \<Rightarrow> select_by_id idNum db
      | None \<Rightarrow> Inr (select_active_like (keyword_pattern keywordOrId) db))"

definition searchTodo :: "string \<Rightarrow> store \<Rightarrow> (error + string) \<times> store" where
  "searchTodo keywordOrId db =
     (case searchTodo_res keywordOrId db of
        Inl e \<Rightarrow> (Inl e, db)
      | Inr rs \<Rightarrow> (Inr (render_rows rs), db))"

definition restoreTodo_res :: "string \<Rightarrow> store \<Rightarrow> nat \<times> store" where
  "restoreTodo_res keyword db =
     update_status (\<lambda>r. ilike (content r) (keyword_pattern keyword) \<and> status r = Deleted) Active db"

definition restoreTodo :: "string \<Rightarrow> store \<Rightarrow> (error + string) \<times> store" where
  "restoreTodo keyword db =
     (let (rowCount, db') = restoreTodo_res keyword db in
      (Inr (if 0 < rowCount then ''Restored '' @ show_nat rowCount @ '' item(s)''
            else ''No deleted todos matched.''), db'))"

definition readTodo_res :: "bool \<Rightarrow> store \<Rightarrow> todo list" where
  "readTodo_res showAll db = select_ordered showAll db"

definition readTodo :: "bool \<Rightarrow> store \<Rightarrow> (error + string) \<times> store" where
  "readTodo showAll db = (Inr (render_rows (readTodo_res showAll db)), db)"

subsection \<open>Sequences of tool calls\<close>

text \<open>
  The agent calls the tools one after another on the one connection; an error of a call is
  caught by the chat loop, which goes on with the table as that call left it.
\<close>

datatype call = Add string | Delete string | Search string | Restore string | Read bool

fun invoke :: "call \<Rightarrow> store \<Rightarrow> (error + string) \<times> store" where
  "invoke (Add c) db = addTodo c db"
| "invoke (Delete k) db = deleteTodo k db"
| "invoke (Search q) db = searchTodo q db"
| "invoke (Restore k) db = restoreTodo k db"
| "invoke (Read a) db = readTodo a db"

fun run :: "call list \<Rightarrow> store \<Rightarrow> store" where
  "run [] db = db"
| "run (c # cs) db = run cs (snd (invoke c db))"

subsection \<open>Notions of the specification\<close>

text \<open>A purely numeric string: one or more decimal digits and nothing else.\<close>

definition is_decimal_digit :: "char \<Rightarrow> bool" where
  "is_decimal_digit c = (48 \<le> (of_char c :: nat) \<and> (of_char c :: nat) \<le> 57)"

definition purely_numeric :: "string \<Rightarrow> bool" where
  "purely_numeric q = (q \<noteq> [] \<and> list_all is_decimal_digit q)"

text \<open>The constraint \<^verbatim>\<open>PRIMARY KEY\<close> of the id column: no two rows share an id.\<close>

definition primary_key :: "store \<Rightarrow> bool" where
  "primary_key db = distinct (map todo_id (todos db))"

section \<open>Properties\<close>

subsection \<open>Case folding and patterns\<close>

lemma of_char_to_lower:
  "(of_char (to_lower c) :: nat) =
     (if 65 \<le> (of_char c :: nat) \<and> (of_char c :: nat) \<le> 90 then of_char c + 32 else of_char c)"
  by (simp add: to_lower_def Let_def)

lemma to_lower_eq_iff:
  assumes "(of_char x :: nat) < 65 \<or> (90 < (of_char x :: nat) \<and> (of_char x :: nat) < 97)
             \<or> 122 < (of_char x :: nat)"
  shows "to_lower c = x \<longleftrightarrow> c = x"
proof -
  have "to_lower c = x \<longleftrightarrow> (of_char (to_lower c) :: nat) = of_char x"
    by (simp only: of_char_eq_iff)
  also have "\<dots> \<longleftrightarrow> (of_char c :: nat) = of_char x"
    using assms by (auto simp: of_char_to_lower)
  also have "\<dots> \<longleftrightarrow> c = x"
    by (simp only: of_char_eq_iff)
  finally show ?thesis .
qed

lemma to_lower_percent: "to_lower c = CHR ''%'' \<longleftrightarrow> c = CHR ''%''"
  by (rule to_lower_eq_iff) simp

lemma to_lower_underscore: "to_lower c = CHR ''_'' \<longleftrightarrow> c = CHR ''_''"
  by (rule to_lower_eq_iff) simp

lemma to_lower_backslash: "to_lower c = CHR 0x5C \<longleftrightarrow> c = CHR 0x5C"
  by (rule to_lower_eq_iff) simp

lemma wildcard_free_to_lower: "wildcard_free (map to_lower k) = wildcard_free k"
  by (simp add: wildcard_free_def to_lower_percent to_lower_underscore to_lower_backslash)

lemma keyword_pattern_to_lower:
  "map to_lower (keyword_pattern k) = keyword_pattern (map to_lower k)"
  by (simp add: keyword_pattern_def to_lower_def)

lemma ends_in_escape_percent: "\<not> ends_in_escape (ps @ ''%'')"
  by (induction ps rule: ends_in_escape.induct) simp_all

lemma keyword_pattern_closed: "\<not> ends_in_escape (keyword_pattern k)"
  using ends_in_escape_percent [of "CHR ''%'' # k"] by (simp add: keyword_pattern_def)

lemma like_match_percent_only: "like_match ''%'' t"
  by (induction t) auto

lemma like_match_percent:
  "like_match (CHR ''%'' # ps) t \<longleftrightarrow> (\<exists>s. suffix s t \<and> like_match ps s)"
proof (induction t)
  case Nil
  then show ?case by auto
next
  case (Cons c cs)
  then show ?case by (auto simp: suffix_Cons)
qed

lemma like_match_literals:
  "wildcard_free ls \<Longrightarrow> like_match (ls @ ''%'') t \<longleftrightarrow> prefix ls t"
proof (induction ls arbitrary: t)
  case Nil
  then show ?case by (simp add: like_match_percent_only)
next
  case (Cons l ls)
  then show ?case by (cases t) (auto simp: wildcard_free_def)
qed

lemma like_match_keyword_pattern:
  "wildcard_free ls \<Longrightarrow> like_match (keyword_pattern ls) t \<longleftrightarrow> sublist ls t"
  by (auto simp: keyword_pattern_def like_match_percent like_match_literals sublist_altdef')

lemma ilike_contains_ci:
  "wildcard_free k \<Longrightarrow> ilike c (keyword_pattern k) = contains_ci c k"
  by (simp add: ilike_def contains_ci_def keyword_pattern_to_lower
      like_match_keyword_pattern wildcard_free_to_lower)

text \<open>
  C6. For every keyword and content the match of Delete, Restore and the text search holds
  exactly when the keyword is a case-insensitive substring of the content, \<^verbatim>\<open>%\<close> and
  \<^verbatim>\<open>_\<close> of the keyword being matched literally. The code does not do that: the keyword
  \<^verbatim>\<open>_\<close> matches the content \<^verbatim>\<open>abc\<close>, which does not contain it.
\<close>

theorem C6_underscore_matches_any_character:
  "ilike ''abc'' (keyword_pattern ''_'') \<and> \<not> contains_ci ''abc'' ''_''"
  by code_simp

text \<open>
  C6, amended. For every keyword without \<^verbatim>\<open>%\<close>, \<^verbatim>\<open>_\<close> and backslash and every content,
  the match used by Delete, Restore and the text search holds exactly when the keyword is a
  case-insensitive substring of the content.
\<close>

theorem C6_match_is_containment:
  "wildcard_free k \<Longrightarrow> ilike c (keyword_pattern k) \<longleftrightarrow> contains_ci c k"
  by (simp add: ilike_def contains_ci_def keyword_pattern_to_lower
      like_match_keyword_pattern wildcard_free_to_lower)

theorem C6_match_is_containment_witness:
  "wildcard_free ''MILK'' \<and> ilike ''Buy milk'' (keyword_pattern ''MILK'')
     \<and> contains_ci ''Buy milk'' ''MILK''"
proof -
  have free: "wildcard_free ''MILK''"
    by (simp add: wildcard_free_def)
  have "contains_ci ''Buy milk'' ''MILK''"
    by code_simp
  with free C6_match_is_containment [OF free, of "''Buy milk''"] show ?thesis
    by simp
qed

subsection \<open>Delete and Restore\<close>

lemma todos_deleteTodo_res:
  "todos (snd (deleteTodo_res k db)) =
     map (\<lambda>r. if status r = Active \<and> ilike (content r) (keyword_pattern k)
               then r\<lparr>status := Deleted\<rparr> else r) (todos db)"
proof -
  have "(if ilike (content r) (keyword_pattern k) then r\<lparr>status := Deleted\<rparr> else r) =
        (if status r = Active \<and> ilike (content r) (keyword_pattern k)
         then r\<lparr>status := Deleted\<rparr> else r)" for r :: todo
    by (cases "status r") simp_all
  then show ?thesis
    by (simp add: deleteTodo_res_def update_status_def)
qed

lemma count_deleteTodo_res:
  "fst (deleteTodo_res k db) = length (filter (\<lambda>r. ilike (content r) (keyword_pattern k)) (todos db))"
  by (simp add: deleteTodo_res_def update_status_def)

lemma delete_twice_same_count:
  "fst (deleteTodo_res k (snd (deleteTodo_res k db))) = fst (deleteTodo_res k db)"
proof -
  have "filter (\<lambda>r. ilike (content r) (keyword_pattern k))
          (map (\<lambda>r. if ilike (content r) (keyword_pattern k) then r\<lparr>status := Deleted\<rparr> else r) rs) =
        map (\<lambda>r. r\<lparr>status := Deleted\<rparr>) (filter (\<lambda>r. ilike (content r) (keyword_pattern k)) rs)"
    for rs :: "todo list"
    by (induction rs) simp_all
  then show ?thesis
    by (simp add: deleteTodo_res_def update_status_def)
qed

text \<open>
  C1. Delete(k) sets to deleted exactly the active rows whose content contains k up to case,
  returns the number of rows so changed, rows already deleted being neither changed nor
  counted, and returns 0 when no active row matches. The code does not do that: with the
  keyword \<^verbatim>\<open>_\<close> it deletes the active row \<^verbatim>\<open>abc\<close>, which does not contain the keyword;
  and on a table whose only row \<^verbatim>\<open>buy milk\<close> is already deleted, Delete(milk) returns 1,
  although no active row matches.
\<close>

theorem C1_delete_wildcard_and_recount:
  "todos (snd (deleteTodo_res ''_'' \<lparr>todos = [\<lparr>todo_id = 1, content = ''abc'', status = Active\<rparr>], todos_id_seq = 2\<rparr>))
     = [\<lparr>todo_id = 1, content = ''abc'', status = Deleted\<rparr>]
   \<and> \<not> contains_ci ''abc'' ''_''
   \<and> fst (deleteTodo_res ''milk'' \<lparr>todos = [\<lparr>todo_id = 1, content = ''buy milk'', status = Deleted\<rparr>], todos_id_seq = 2\<rparr>) = 1"
  by code_simp

text \<open>
  C1, amended. Delete(k) sets to deleted exactly the rows that are active and whose content
  matches the pattern \<^verbatim>\<open>%k%\<close> of \<^verbatim>\<open>ILIKE\<close>, and leaves every other row as it is; for a
  keyword without \<^verbatim>\<open>%\<close>, \<^verbatim>\<open>_\<close> and backslash these are the active rows whose content
  contains k up to case. When no deleted row matches, the count returned is the number of
  rows so changed. When no row matches, the count is 0, the reply says so and the table is
  unchanged.
\<close>

theorem C1_delete_transitions:
  "todos (snd (deleteTodo_res k db)) =
     map (\<lambda>r. if status r = Active \<and> ilike (content r) (keyword_pattern k)
               then r\<lparr>status := Deleted\<rparr> else r) (todos db)
   \<and> (wildcard_free k \<longrightarrow>
        todos (snd (deleteTodo_res k db)) =
          map (\<lambda>r. if status r = Active \<and> contains_ci (content r) k
                    then r\<lparr>status := Deleted\<rparr> else r) (todos db))
   \<and> ((\<forall>r \<in> set (todos db). status r = Deleted \<longrightarrow> \<not> ilike (content r) (keyword_pattern k)) \<longrightarrow>
        fst (deleteTodo_res k db) =
          length (filter (\<lambda>r. status r = Active \<and> ilike (content r) (keyword_pattern k)) (todos db)))
   \<and> ((\<forall>r \<in> set (todos db). \<not> ilike (content r) (keyword_pattern k)) \<longrightarrow>
        fst (deleteTodo_res k db) = 0 \<and> deleteTodo k db = (Inr ''No matching todos found.'', db))"
proof (intro conjI impI)
  show "todos (snd (deleteTodo_res k db)) =
     map (\<lambda>r. if status r = Active \<and> ilike (content r) (keyword_pattern k)
               then r\<lparr>status := Deleted\<rparr> else r) (todos db)"
    by (rule todos_deleteTodo_res)
next
  assume "wildcard_free k"
  then show "todos (snd (deleteTodo_res k db)) =
          map (\<lambda>r. if status r = Active \<and> contains_ci (content r) k
                    then r\<lparr>status := Deleted\<rparr> else r) (todos db)"
    by (simp add: todos_deleteTodo_res ilike_contains_ci)
next
  assume "\<forall>r \<in> set (todos db). status r = Deleted \<longrightarrow> \<not> ilike (content r) (keyword_pattern k)"
  then have "filter (\<lambda>r. ilike (content r) (keyword_pattern k)) (todos db) =
             filter (\<lambda>r. status r = Active \<and> ilike (content r) (keyword_pattern k)) (todos db)"
    by (intro filter_cong refl) (metis status.exhaust)
  then show "fst (deleteTodo_res k db) =
          length (filter (\<lambda>r. status r = Active \<and> ilike (content r) (keyword_pattern k)) (todos db))"
    by (simp add: count_deleteTodo_res)
next
  assume none: "\<forall>r \<in> set (todos db). \<not> ilike (content r) (keyword_pattern k)"
  then show "fst (deleteTodo_res k db) = 0"
    by (simp add: count_deleteTodo_res)
  from none have "map (\<lambda>r. if ilike (content r) (keyword_pattern k) then r\<lparr>status := Deleted\<rparr> else r) (todos db) = todos db"
    by (simp add: map_idI)
  with none show "deleteTodo k db = (Inr ''No matching todos found.'', db)"
    by (simp add: deleteTodo_def deleteTodo_res_def update_status_def)
qed

text \<open>
  C1, amended, at a table of three rows, one of them deleted and not matching: Delete(milk)
  deletes the two active rows that contain the keyword and returns 2; Delete(cat) matches
  nothing.
\<close>

theorem C1_delete_transitions_witness:
  "wildcard_free ''milk''
   \<and> filter (\<lambda>r. status r = Deleted \<and> ilike (content r) (keyword_pattern ''milk''))
        (todos (run [Add ''buy milk'', Add ''Walk dog'', Add ''MILK run'', Delete ''dog''] empty_store)) = []
   \<and> todos (snd (deleteTodo_res ''milk''
          (run [Add ''buy milk'', Add ''Walk dog'', Add ''MILK run'', Delete ''dog''] empty_store))) =
        [\<lparr>todo_id = 1, content = ''buy milk'', status = Deleted\<rparr>,
         \<lparr>todo_id = 2, content = ''Walk dog'', status = Deleted\<rparr>,
         \<lparr>todo_id = 3, content = ''MILK run'', status = Deleted\<rparr>]
   \<and> fst (deleteTodo_res ''milk''
          (run [Add ''buy milk'', Add ''Walk dog'', Add ''MILK run'', Delete ''dog''] empty_store)) = 2
   \<and> filter (\<lambda>r. ilike (content r) (keyword_pattern ''cat''))
        (todos (run [Add ''buy milk'', Add ''Walk dog'', Add ''MILK run'', Delete ''dog''] empty_store)) = []
   \<and> deleteTodo ''cat''
          (run [Add ''buy milk'', Add ''Walk dog'', Add ''MILK run'', Delete ''dog''] empty_store) =
        (Inr ''No matching todos found.'',
         run [Add ''buy milk'', Add ''Walk dog'', Add ''MILK run'', Delete ''dog''] empty_store)"
proof -
  let ?db = "run [Add ''buy milk'', Add ''Walk dog'', Add ''MILK run'', Delete ''dog''] empty_store"
  have free: "wildcard_free ''milk''"
    by code_simp
  have kept': "filter (\<lambda>r. status r = Deleted \<and> ilike (content r) (keyword_pattern ''milk''))
      (todos ?db) = []"
    by code_simp
  then have kept: "\<forall>r \<in> set (todos ?db). status r = Deleted \<longrightarrow> \<not> ilike (content r) (keyword_pattern ''milk'')"
    by (simp add: filter_empty_conv)
  have none': "filter (\<lambda>r. ilike (content r) (keyword_pattern ''cat'')) (todos ?db) = []"
    by code_simp
  then have none: "\<forall>r \<in> set (todos ?db). \<not> ilike (content r) (keyword_pattern ''cat'')"
    by (simp add: filter_empty_conv)
  note milk = C1_delete_transitions [of "''milk''" ?db]
  note cat = C1_delete_transitions [of "''cat''" ?db]
  from milk free have "todos (snd (deleteTodo_res ''milk'' ?db)) =
      map (\<lambda>r. if status r = Active \<and> contains_ci (content r) ''milk''
                then r\<lparr>status := Deleted\<rparr> else r) (todos ?db)"
    by blast
  also have "\<dots> = [\<lparr>todo_id = 1, content = ''buy milk'', status = Deleted\<rparr>,
         \<lparr>todo_id = 2, content = ''Walk dog'', status = Deleted\<rparr>,
         \<lparr>todo_id = 3, content = ''MILK run'', status = Deleted\<rparr>]"
    by code_simp
  finally have rows: "todos (snd (deleteTodo_res ''milk'' ?db)) =
        [\<lparr>todo_id = 1, content = ''buy milk'', status = Deleted\<rparr>,
         \<lparr>todo_id = 2, content = ''Walk dog'', status = Deleted\<rparr>,
         \<lparr>todo_id = 3, content = ''MILK run'', status = Deleted\<rparr>]" .
  from milk kept have "fst (deleteTodo_res ''milk'' ?db) =
      length (filter (\<lambda>r. status r = Active \<and> ilike (content r) (keyword_pattern ''milk'')) (todos ?db))"
    by blast
  also have "\<dots> = 2"
    by code_simp
  finally have count: "fst (deleteTodo_res ''milk'' ?db) = 2" .
  from cat none have reply: "deleteTodo ''cat'' ?db = (Inr ''No matching todos found.'', ?db)"
    by blast
  show ?thesis
    by (intro conjI free kept' rows count none' reply)
qed

text \<open>
  C2. Running Delete(k) and then Delete(k) again makes the second call return 0. The code
  does not do that: the statement of Delete has no condition on the status (the statement of
  Restore has one), so the rows deleted by the first call match again. After Add(buy milk),
  Delete(milk) replies \<^verbatim>\<open>Deleted 1 item(s)\<close>, and so does the second Delete(milk).
\<close>

theorem C2_second_delete_counts_again:
  "deleteTodo ''milk'' (run [Add ''buy milk''] empty_store) =
     (Inr ''Deleted 1 item(s)'',
      \<lparr>todos = [\<lparr>todo_id = 1, content = ''buy milk'', status = Deleted\<rparr>], todos_id_seq = 2\<rparr>)
   \<and> deleteTodo ''milk'' (snd (deleteTodo ''milk'' (run [Add ''buy milk''] empty_store))) =
     (Inr ''Deleted 1 item(s)'',
      \<lparr>todos = [\<lparr>todo_id = 1, content = ''buy milk'', status = Deleted\<rparr>], todos_id_seq = 2\<rparr>)
   \<and> fst (deleteTodo_res ''milk'' (snd (deleteTodo_res ''milk'' (run [Add ''buy milk''] empty_store)))) = 1"
  by code_simp

lemma todos_restoreTodo_res:
  "todos (snd (restoreTodo_res k db)) =
     map (\<lambda>r. if status r = Deleted \<and> ilike (content r) (keyword_pattern k)
               then r\<lparr>status := Active\<rparr> else r) (todos db)"
  by (simp add: restoreTodo_res_def update_status_def conj_commute)

lemma count_restoreTodo_res:
  "fst (restoreTodo_res k db) =
     length (filter (\<lambda>r. status r = Deleted \<and> ilike (content r) (keyword_pattern k)) (todos db))"
  by (simp add: restoreTodo_res_def update_status_def conj_commute)

text \<open>
  C3. Restore(k) sets to active exactly the deleted rows whose content contains k up to
  case. The code does not do that: with the keyword \<^verbatim>\<open>_\<close> it restores the deleted row
  \<^verbatim>\<open>abc\<close>, which does not contain the keyword.
\<close>

theorem C3_restore_underscore:
  "todos (snd (restoreTodo_res ''_''
      \<lparr>todos = [\<lparr>todo_id = 1, content = ''abc'', status = Deleted\<rparr>], todos_id_seq = 2\<rparr>)) =
     [\<lparr>todo_id = 1, content = ''abc'', status = Active\<rparr>]
   \<and> \<not> contains_ci ''abc'' ''_''"
  by code_simp

text \<open>
  C3, amended. Restore(k) sets to active exactly the rows that are deleted and whose content
  matches the pattern \<^verbatim>\<open>%k%\<close> of \<^verbatim>\<open>ILIKE\<close>, and returns their number; for a keyword
  without \<^verbatim>\<open>%\<close>, \<^verbatim>\<open>_\<close> and backslash these are the deleted rows whose content contains k up
  to case. Rows already active are left as they are, and when every matching row is already
  active Restore(k) returns 0 and leaves the table unchanged.
\<close>

theorem C3_restore_transitions:
  "todos (snd (restoreTodo_res k db)) =
     map (\<lambda>r. if status r = Deleted \<and> ilike (content r) (keyword_pattern k)
               then r\<lparr>status := Active\<rparr> else r) (todos db)
   \<and> fst (restoreTodo_res k db) =
       length (filter (\<lambda>r. status r = Deleted \<and> ilike (content r) (keyword_pattern k)) (todos db))
   \<and> (wildcard_free k \<longrightarrow>
        todos (snd (restoreTodo_res k db)) =
          map (\<lambda>r. if status r = Deleted \<and> contains_ci (content r) k
                    then r\<lparr>status := Active\<rparr> else r) (todos db))
   \<and> ((\<forall>r \<in> set (todos db). ilike (content r) (keyword_pattern k) \<longrightarrow> status r = Active) \<longrightarrow>
        restoreTodo_res k db = (0, db) \<and> restoreTodo k db = (Inr ''No deleted todos matched.'', db))"
proof (intro conjI impI)
  show "todos (snd (restoreTodo_res k db)) =
     map (\<lambda>r. if status r = Deleted \<and> ilike (content r) (keyword_pattern k)
               then r\<lparr>status := Active\<rparr> else r) (todos db)"
    by (rule todos_restoreTodo_res)
next
  show "fst (restoreTodo_res k db) =
       length (filter (\<lambda>r. status r = Deleted \<and> ilike (content r) (keyword_pattern k)) (todos db))"
    by (rule count_restoreTodo_res)
next
  assume "wildcard_free k"
  then show "todos (snd (restoreTodo_res k db)) =
          map (\<lambda>r. if status r = Deleted \<and> contains_ci (content r) k
                    then r\<lparr>status := Active\<rparr> else r) (todos db)"
    by (simp add: todos_restoreTodo_res ilike_contains_ci)
next
  assume active: "\<forall>r \<in> set (todos db). ilike (content r) (keyword_pattern k) \<longrightarrow> status r = Active"
  then have none: "\<forall>r \<in> set (todos db). \<not> (ilike (content r) (keyword_pattern k) \<and> status r = Deleted)"
    by auto
  then have same: "map (\<lambda>r. if ilike (content r) (keyword_pattern k) \<and> status r = Deleted
                       then r\<lparr>status := Active\<rparr> else r) (todos db) = todos db"
    by (simp add: map_idI)
  from none have zero: "filter (\<lambda>r. ilike (content r) (keyword_pattern k) \<and> status r = Deleted) (todos db) = []"
    by (simp add: filter_empty_conv)
  from same zero show res: "restoreTodo_res k db = (0, db)"
    by (simp add: restoreTodo_res_def update_status_def)
  then show "restoreTodo k db = (Inr ''No deleted todos matched.'', db)"
    by (simp add: restoreTodo_def)
qed

text \<open>
  C3, amended, at a table with one deleted and two active rows: Restore(milk) restores the
  deleted row \<^verbatim>\<open>buy milk\<close> and leaves the active row \<^verbatim>\<open>MILK run\<close> alone; Restore(RUN),
  whose only match is active, changes nothing.
\<close>

theorem C3_restore_transitions_witness:
  "wildcard_free ''milk''
   \<and> todos (snd (restoreTodo_res ''milk''
          (run [Add ''buy milk'', Add ''Walk dog'', Add ''MILK run'', Delete ''m'', Restore ''run''] empty_store))) =
        [\<lparr>todo_id = 1, content = ''buy milk'', status = Active\<rparr>,
         \<lparr>todo_id = 2, content = ''Walk dog'', status = Active\<rparr>,
         \<lparr>todo_id = 3, content = ''MILK run'', status = Active\<rparr>]
   \<and> filter (\<lambda>r. ilike (content r) (keyword_pattern ''RUN'') \<and> status r \<noteq> Active)
        (todos (run [Add ''buy milk'', Add ''Walk dog'', Add ''MILK run'', Delete ''m'', Restore ''run''] empty_store)) = []
   \<and> restoreTodo ''RUN''
          (run [Add ''buy milk'', Add ''Walk dog'', Add ''MILK run'', Delete ''m'', Restore ''run''] empty_store) =
        (Inr ''No deleted todos matched.'',
         run [Add ''buy milk'', Add ''Walk dog'', Add ''MILK run'', Delete ''m'', Restore ''run''] empty_store)"
proof -
  let ?db = "run [Add ''buy milk'', Add ''Walk dog'', Add ''MILK run'', Delete ''m'', Restore ''run''] empty_store"
  have free: "wildcard_free ''milk''"
    by code_simp
  have active': "filter (\<lambda>r. ilike (content r) (keyword_pattern ''RUN'') \<and> status r \<noteq> Active)
      (todos ?db) = []"
    by code_simp
  then have active: "\<forall>r \<in> set (todos ?db). ilike (content r) (keyword_pattern ''RUN'') \<longrightarrow> status r = Active"
    by (simp add: filter_empty_conv)
  note milk = C3_restore_transitions [of "''milk''" ?db]
  note run = C3_restore_transitions [of "''RUN''" ?db]
  from milk free have "todos (snd (restoreTodo_res ''milk'' ?db)) =
      map (\<lambda>r. if status r = Deleted \<and> contains_ci (content r) ''milk''
                then r\<lparr>status := Active\<rparr> else r) (todos ?db)"
    by blast
  also have "\<dots> = [\<lparr>todo_id = 1, content = ''buy milk'', status = Active\<rparr>,
         \<lparr>todo_id = 2, content = ''Walk dog'', status = Active\<rparr>,
         \<lparr>todo_id = 3, content = ''MILK run'', status = Active\<rparr>]"
    by code_simp
  finally have rows: "todos (snd (restoreTodo_res ''milk'' ?db)) =
        [\<lparr>todo_id = 1, content = ''buy milk'', status = Active\<rparr>,
         \<lparr>todo_id = 2, content = ''Walk dog'', status = Active\<rparr>,
         \<lparr>todo_id = 3, content = ''MILK run'', status = Active\<rparr>]" .
  from run active have reply: "restoreTodo ''RUN'' ?db = (Inr ''No deleted todos matched.'', ?db)"
    by blast
  show ?thesis
    by (intro conjI free active' rows reply)
qed

subsection \<open>Search\<close>

lemma decimal_digit_radix: "is_decimal_digit c \<Longrightarrow> is_radix_digit 10 c"
  by (auto simp: is_decimal_digit_def is_radix_digit_def digit_value_def Let_def)

lemma decimal_digit_not_space: "is_decimal_digit c \<Longrightarrow> \<not> is_white_space c"
  by (auto simp: is_decimal_digit_def is_white_space_def)

lemma decimal_digit_not_mark:
  "is_decimal_digit c \<Longrightarrow> c \<noteq> CHR ''-'' \<and> c \<noteq> CHR ''+'' \<and> c \<noteq> CHR ''x'' \<and> c \<noteq> CHR ''X''"
  by (auto simp: is_decimal_digit_def)

lemma parseInt_purely_numeric:
  assumes "purely_numeric q"
  shows "parseInt q = Some (int (radix_value 10 q))"
proof -
  from assms obtain c cs where q: "q = c # cs" and c: "is_decimal_digit c"
    and cs: "list_all is_decimal_digit cs"
    by (cases q) (auto simp: purely_numeric_def)
  have skip: "dropWhile is_white_space q = q"
    using c by (simp add: q decimal_digit_not_space)
  have nohex: "take 2 q \<noteq> ''0x'' \<and> take 2 q \<noteq> ''0X''"
  proof (cases cs)
    case Nil
    then show ?thesis by (simp add: q)
  next
    case (Cons d ds)
    with cs have "is_decimal_digit d" by simp
    then show ?thesis
      using decimal_digit_not_mark [of d] by (simp add: q Cons)
  qed
  have digits: "takeWhile (is_radix_digit 10) q = q"
    using c cs by (simp add: q list_all_iff decimal_digit_radix)
  show ?thesis
    using decimal_digit_not_mark [OF c] nohex
    by (simp add: parseInt_def skip digits) (simp add: q)
qed

lemma filter_key_at_most_one:
  "distinct (map f xs) \<Longrightarrow> length (filter (\<lambda>x. f x = k) xs) \<le> 1"
proof (induction xs)
  case Nil
  then show ?case by simp
next
  case (Cons x xs)
  show ?case
  proof (cases "f x = k")
    case True
    from Cons.prems have "f x \<notin> f ` set xs"
      by simp
    with True have "\<forall>y \<in> set xs. f y \<noteq> k"
      by blast
    then have "filter (\<lambda>y. f y = k) xs = []"
      by (simp add: filter_empty_conv)
    with True show ?thesis by simp
  next
    case False
    with Cons show ?thesis by simp
  qed
qed

text \<open>
  C4. For every purely numeric query, Search looks the row up by id, whatever its status,
  and returns at most one row. The code does not do that for every such query: the id
  column is a 32-bit integer, and for the purely numeric query \<^verbatim>\<open>4155551234\<close> the database
  refuses the parameter of \<^verbatim>\<open>WHERE id=$1\<close>, so the call fails and no lookup takes place.
\<close>

theorem C4_ten_digit_query_fails:
  "purely_numeric ''4155551234''
   \<and> searchTodo_res ''4155551234''
        \<lparr>todos = [\<lparr>todo_id = 1, content = ''call 4155551234'', status = Active\<rparr>],
         todos_id_seq = 2\<rparr> = Inl IdOutOfRange
   \<and> searchTodo ''4155551234''
        \<lparr>todos = [\<lparr>todo_id = 1, content = ''call 4155551234'', status = Active\<rparr>],
         todos_id_seq = 2\<rparr> =
       (Inl IdOutOfRange,
        \<lparr>todos = [\<lparr>todo_id = 1, content = ''call 4155551234'', status = Active\<rparr>],
         todos_id_seq = 2\<rparr>)"
  by (simp add: purely_numeric_def is_decimal_digit_def searchTodo_def searchTodo_res_def
      parseInt_def is_white_space_def is_radix_digit_def digit_value_def radix_value_def
      select_by_id_def int4_max_def int4_min_def)

text \<open>
  C4, amended. For every purely numeric query whose value is at most 2147483647, the
  largest id of the column, Search returns exactly the rows with that id, whatever their
  status, and that is at most one row. For a purely numeric query with a larger value the
  call fails with the error of the database and returns no row.
\<close>

theorem C4_numeric_search_by_id:
  "purely_numeric q \<Longrightarrow> primary_key db \<Longrightarrow>
     (int (radix_value 10 q) \<le> int4_max \<longrightarrow>
        searchTodo_res q db = Inr (filter (\<lambda>r. todo_id r = int (radix_value 10 q)) (todos db))
        \<and> length (filter (\<lambda>r. todo_id r = int (radix_value 10 q)) (todos db)) \<le> 1)
   \<and> (int4_max < int (radix_value 10 q) \<longrightarrow> searchTodo_res q db = Inl IdOutOfRange)"
proof -
  assume numeric: "purely_numeric q" and key: "primary_key db"
  have parse: "parseInt q = Some (int (radix_value 10 q))"
    using numeric by (rule parseInt_purely_numeric)
  have one: "length (filter (\<lambda>r. todo_id r = int (radix_value 10 q)) (todos db)) \<le> 1"
    using key unfolding primary_key_def by (rule filter_key_at_most_one)
  have path: "searchTodo_res q db =
       (if int (radix_value 10 q) \<le> int4_max
        then Inr (filter (\<lambda>r. todo_id r = int (radix_value 10 q)) (todos db))
        else Inl IdOutOfRange)"
    by (simp add: parse searchTodo_res_def select_by_id_def int4_min_def)
  show ?thesis
  proof (intro conjI impI)
    assume "int (radix_value 10 q) \<le> int4_max"
    with path
    show "searchTodo_res q db = Inr (filter (\<lambda>r. todo_id r = int (radix_value 10 q)) (todos db))"
      by simp
  next
    show "length (filter (\<lambda>r. todo_id r = int (radix_value 10 q)) (todos db)) \<le> 1"
      by (rule one)
  next
    assume "int4_max < int (radix_value 10 q)"
    with path show "searchTodo_res q db = Inl IdOutOfRange"
      by simp
  qed
qed

text \<open>
  C4, amended, on a table whose row 42 is deleted: the query \<^verbatim>\<open>42\<close> returns that one row,
  and the query \<^verbatim>\<open>4155551234\<close> fails.
\<close>

theorem C4_numeric_search_by_id_witness:
  "purely_numeric ''42''
   \<and> primary_key \<lparr>todos = [\<lparr>todo_id = 41, content = ''buy milk'', status = Active\<rparr>,
                            \<lparr>todo_id = 42, content = ''Walk dog'', status = Deleted\<rparr>],
                   todos_id_seq = 43\<rparr>
   \<and> int (radix_value 10 ''42'') \<le> int4_max
   \<and> searchTodo_res ''42''
        \<lparr>todos = [\<lparr>todo_id = 41, content = ''buy milk'', status = Active\<rparr>,
                  \<lparr>todo_id = 42, content = ''Walk dog'', status = Deleted\<rparr>],
         todos_id_seq = 43\<rparr> =
       Inr [\<lparr>todo_id = 42, content = ''Walk dog'', status = Deleted\<rparr>]
   \<and> purely_numeric ''4155551234''
   \<and> int4_max < int (radix_value 10 ''4155551234'')
   \<and> searchTodo_res ''4155551234''
        \<lparr>todos = [\<lparr>todo_id = 41, content = ''buy milk'', status = Active\<rparr>,
                  \<lparr>todo_id = 42, content = ''Walk dog'', status = Deleted\<rparr>],
         todos_id_seq = 43\<rparr> = Inl IdOutOfRange"
proof -
  let ?db = "\<lparr>todos = [\<lparr>todo_id = 41, content = ''buy milk'', status = Active\<rparr>,
                       \<lparr>todo_id = 42, content = ''Walk dog'', status = Deleted\<rparr>],
              todos_id_seq = 43\<rparr>"
  have numeric: "purely_numeric ''42''"
    by code_simp
  have long: "purely_numeric ''4155551234''"
    by code_simp
  have key: "primary_key ?db"
    by (simp add: primary_key_def)
  have v42: "int (radix_value 10 ''42'') = 42"
    by (simp add: radix_value_def digit_value_def)
  have small: "int (radix_value 10 ''42'') \<le> int4_max"
    by (simp add: v42 int4_max_def)
  have large: "int4_max < int (radix_value 10 ''4155551234'')"
    by (simp add: radix_value_def digit_value_def int4_max_def)
  from C4_numeric_search_by_id [OF numeric key] small
  have "searchTodo_res ''42'' ?db =
      Inr (filter (\<lambda>r. todo_id r = int (radix_value 10 ''42'')) (todos ?db))"
    by blast
  then have found: "searchTodo_res ''42'' ?db =
      Inr [\<lparr>todo_id = 42, content = ''Walk dog'', status = Deleted\<rparr>]"
    by (simp add: v42)
  from C4_numeric_search_by_id [OF long key] large
  have refused: "searchTodo_res ''4155551234'' ?db = Inl IdOutOfRange"
    by blast
  show ?thesis
    by (intro conjI numeric key small found long large refused)
qed

text \<open>
  C5. For every query that does not parse as an integer, every row Search returns is
  active, none is deleted, and with no matching row the result is empty and not an error.
\<close>

theorem C5_text_search_active_only:
  "parseInt q = None \<Longrightarrow>
     searchTodo_res q db =
       Inr (filter (\<lambda>r. ilike (content r) (keyword_pattern q) \<and> status r = Active) (todos db))
   \<and> (\<forall>rows. searchTodo_res q db = Inr rows \<longrightarrow> (\<forall>r \<in> set rows. status r = Active \<and> status r \<noteq> Deleted))
   \<and> ((\<forall>r \<in> set (todos db). \<not> (ilike (content r) (keyword_pattern q) \<and> status r = Active)) \<longrightarrow>
        searchTodo_res q db = Inr [] \<and> searchTodo q db = (Inr ''No todos found.'', db))"
  by (auto simp: searchTodo_res_def searchTodo_def select_active_like_def render_rows_def
      filter_empty_conv)

text \<open>
  C5 at the query \<^verbatim>\<open>milk\<close>, on a table with an active and a deleted row that both contain
  it: Search returns the active one; and at the query \<^verbatim>\<open>cat\<close>, which no row contains: the
  reply is \<^verbatim>\<open>No todos found.\<close>
\<close>

theorem C5_text_search_active_only_witness:
  "parseInt ''milk'' = None
   \<and> searchTodo_res ''milk'' (run [Add ''buy milk'', Add ''MILK run'', Delete ''run''] empty_store) =
       Inr [\<lparr>todo_id = 1, content = ''buy milk'', status = Active\<rparr>]
   \<and> parseInt ''cat'' = None
   \<and> searchTodo ''cat'' (run [Add ''buy milk'', Add ''MILK run'', Delete ''run''] empty_store) =
       (Inr ''No todos found.'', run [Add ''buy milk'', Add ''MILK run'', Delete ''run''] empty_store)"
proof -
  let ?db = "run [Add ''buy milk'', Add ''MILK run'', Delete ''run''] empty_store"
  have milk: "parseInt ''milk'' = None"
    by code_simp
  have cat: "parseInt ''cat'' = None"
    by code_simp
  from C5_text_search_active_only [OF milk, of ?db]
  have "searchTodo_res ''milk'' ?db =
      Inr (filter (\<lambda>r. ilike (content r) (keyword_pattern ''milk'') \<and> status r = Active) (todos ?db))"
    by blast
  also have "\<dots> = Inr [\<lparr>todo_id = 1, content = ''buy milk'', status = Active\<rparr>]"
    by code_simp
  finally have found: "searchTodo_res ''milk'' ?db =
      Inr [\<lparr>todo_id = 1, content = ''buy milk'', status = Active\<rparr>]" .
  have "filter (\<lambda>r. ilike (content r) (keyword_pattern ''cat'') \<and> status r = Active) (todos ?db) = []"
    by code_simp
  then have "\<forall>r \<in> set (todos ?db). \<not> (ilike (content r) (keyword_pattern ''cat'') \<and> status r = Active)"
    by (simp add: filter_empty_conv)
  with C5_text_search_active_only [OF cat, of ?db]
  have empty: "searchTodo ''cat'' ?db = (Inr ''No todos found.'', ?db)"
    by blast
  show ?thesis
    by (intro conjI milk found cat empty)
qed

text \<open>
  C10. For every query of which \<^verbatim>\<open>parseInt\<close> reads an integer, also when more text follows
  the digits, Search looks up the row with that integer as id and makes no text search: the
  result is the one of the lookup, and it is the same whatever the contents of the rows.
\<close>

theorem C10_integer_prefix_takes_id_path:
  "parseInt q = Some n \<Longrightarrow>
     searchTodo_res q db = select_by_id n db
   \<and> searchTodo_res q db =
       (if int4_min \<le> n \<and> n \<le> int4_max
        then Inr (filter (\<lambda>r. todo_id r = n) (todos db)) else Inl IdOutOfRange)
   \<and> searchTodo_res q (db\<lparr>todos := map (\<lambda>r. r\<lparr>content := f r\<rparr>) (todos db)\<rparr>) =
       map_sum id (map (\<lambda>r. r\<lparr>content := f r\<rparr>)) (searchTodo_res q db)"
  by (simp add: searchTodo_res_def select_by_id_def filter_map comp_def)

text \<open>
  C10 at the queries \<^verbatim>\<open>3 apples\<close> and \<^verbatim>\<open>12 Main St\<close>, on a table that holds both as
  contents of its rows 1 and 2: the first query returns row 3, the second no row.
\<close>

theorem C10_integer_prefix_takes_id_path_witness:
  "parseInt ''3 apples'' = Some 3
   \<and> searchTodo_res ''3 apples'' (run [Add ''3 apples'', Add ''12 Main St'', Add ''walk dog''] empty_store) =
       Inr [\<lparr>todo_id = 3, content = ''walk dog'', status = Active\<rparr>]
   \<and> parseInt ''12 Main St'' = Some 12
   \<and> searchTodo_res ''12 Main St'' (run [Add ''3 apples'', Add ''12 Main St'', Add ''walk dog''] empty_store) =
       Inr []"
proof -
  let ?db = "run [Add ''3 apples'', Add ''12 Main St'', Add ''walk dog''] empty_store"
  have three: "parseInt ''3 apples'' = Some 3"
    by code_simp
  have twelve: "parseInt ''12 Main St'' = Some 12"
    by code_simp
  from C10_integer_prefix_takes_id_path [OF three, of ?db]
  have "searchTodo_res ''3 apples'' ?db = select_by_id 3 ?db"
    by blast
  also have "\<dots> = Inr [\<lparr>todo_id = 3, content = ''walk dog'', status = Active\<rparr>]"
    by code_simp
  finally have row: "searchTodo_res ''3 apples'' ?db =
      Inr [\<lparr>todo_id = 3, content = ''walk dog'', status = Active\<rparr>]" .
  from C10_integer_prefix_takes_id_path [OF twelve, of ?db]
  have "searchTodo_res ''12 Main St'' ?db = select_by_id 12 ?db"
    by blast
  also have "\<dots> = Inr []"
    by code_simp
  finally have none: "searchTodo_res ''12 Main St'' ?db = Inr []" .
  show ?thesis
    by (intro conjI three row twelve none)
qed

subsection \<open>List\<close>

lemma readTodo_res_filter:
  "readTodo_res False db = filter (\<lambda>r. status r = Active) (readTodo_res True db)"
  by (simp add: readTodo_res_def select_ordered_def filter_sort)

lemma set_readTodo_res_all: "set (readTodo_res True db) = set (todos db)"
  by (simp add: readTodo_res_def select_ordered_def)

lemma readTodo_res_descending:
  "sorted_wrt (\<lambda>a b. todo_id b \<le> todo_id a) (readTodo_res showAll db)"
proof -
  have "sorted (map (\<lambda>r. - todo_id r) (readTodo_res showAll db))"
    unfolding readTodo_res_def select_ordered_def by (rule sorted_sort_key)
  then show ?thesis
    by (simp add: sorted_map)
qed

text \<open>
  C7. List(showAll=false) returns exactly the active rows of List(showAll=true), is a strict
  subset of it, and both are ordered by descending id. The subset is not always strict:
  after Add(buy milk) alone both listings are the same.
\<close>

theorem C7_single_active_row_lists_equal:
  "readTodo_res False (run [Add ''buy milk''] empty_store) =
     readTodo_res True (run [Add ''buy milk''] empty_store)
   \<and> \<not> set (readTodo_res False (run [Add ''buy milk''] empty_store))
          \<subset> set (readTodo_res True (run [Add ''buy milk''] empty_store))"
proof -
  have "readTodo_res False (run [Add ''buy milk''] empty_store) =
     readTodo_res True (run [Add ''buy milk''] empty_store)"
    by code_simp
  then show ?thesis
    by simp
qed

text \<open>
  C7, amended. List(showAll=false) returns exactly the rows of List(showAll=true) whose
  status is active, hence a subset of it, which is strict exactly when the table has a
  deleted row; both listings are ordered by descending id.
\<close>

theorem C7_list_active_subset_descending:
  "readTodo_res False db = filter (\<lambda>r. status r = Active) (readTodo_res True db)
   \<and> set (readTodo_res False db) \<subseteq> set (readTodo_res True db)
   \<and> (set (readTodo_res False db) \<subset> set (readTodo_res True db)
        \<longleftrightarrow> (\<exists>r \<in> set (todos db). status r = Deleted))
   \<and> sorted_wrt (\<lambda>a b. todo_id b \<le> todo_id a) (readTodo_res False db)
   \<and> sorted_wrt (\<lambda>a b. todo_id b \<le> todo_id a) (readTodo_res True db)"
proof (intro conjI)
  show eq: "readTodo_res False db = filter (\<lambda>r. status r = Active) (readTodo_res True db)"
    by (rule readTodo_res_filter)
  show "set (readTodo_res False db) \<subseteq> set (readTodo_res True db)"
    by (simp add: eq)
  have active: "set (readTodo_res False db) = {r \<in> set (todos db). status r = Active}"
    by (simp add: eq set_readTodo_res_all)
  show "set (readTodo_res False db) \<subset> set (readTodo_res True db)
        \<longleftrightarrow> (\<exists>r \<in> set (todos db). status r = Deleted)"
  proof
    assume "set (readTodo_res False db) \<subset> set (readTodo_res True db)"
    then obtain r where "r \<in> set (todos db)" and "status r \<noteq> Active"
      unfolding active set_readTodo_res_all by blast
    then show "\<exists>r \<in> set (todos db). status r = Deleted"
      by (cases "status r") auto
  next
    assume "\<exists>r \<in> set (todos db). status r = Deleted"
    then obtain r where "r \<in> set (todos db)" and "status r = Deleted"
      by blast
    then have "r \<in> set (readTodo_res True db)" and "r \<notin> set (readTodo_res False db)"
      by (simp_all add: active set_readTodo_res_all)
    moreover have "set (readTodo_res False db) \<subseteq> set (readTodo_res True db)"
      by (simp add: eq)
    ultimately show "set (readTodo_res False db) \<subset> set (readTodo_res True db)"
      by blast
  qed
  show "sorted_wrt (\<lambda>a b. todo_id b \<le> todo_id a) (readTodo_res False db)"
    by (rule readTodo_res_descending)
  show "sorted_wrt (\<lambda>a b. todo_id b \<le> todo_id a) (readTodo_res True db)"
    by (rule readTodo_res_descending)
qed

text \<open>
  C7, amended, at a table of three rows with row 2 deleted: the full listing is rows 3, 2,
  1, the default listing rows 3, 1, a strict subset.
\<close>

theorem C7_list_active_subset_descending_witness:
  "readTodo_res True (run [Add ''buy milk'', Add ''Walk dog'', Add ''call mum'', Delete ''dog''] empty_store) =
     [\<lparr>todo_id = 3, content = ''call mum'', status = Active\<rparr>,
      \<lparr>todo_id = 2, content = ''Walk dog'', status = Deleted\<rparr>,
      \<lparr>todo_id = 1, content = ''buy milk'', status = Active\<rparr>]
   \<and> readTodo_res False (run [Add ''buy milk'', Add ''Walk dog'', Add ''call mum'', Delete ''dog''] empty_store) =
     [\<lparr>todo_id = 3, content = ''call mum'', status = Active\<rparr>,
      \<lparr>todo_id = 1, content = ''buy milk'', status = Active\<rparr>]
   \<and> set (readTodo_res False (run [Add ''buy milk'', Add ''Walk dog'', Add ''call mum'', Delete ''dog''] empty_store))
       \<subset> set (readTodo_res True (run [Add ''buy milk'', Add ''Walk dog'', Add ''call mum'', Delete ''dog''] empty_store))"
proof -
  let ?db = "run [Add ''buy milk'', Add ''Walk dog'', Add ''call mum'', Delete ''dog''] empty_store"
  note list = C7_list_active_subset_descending [of ?db]
  have all: "readTodo_res True ?db =
     [\<lparr>todo_id = 3, content = ''call mum'', status = Active\<rparr>,
      \<lparr>todo_id = 2, content = ''Walk dog'', status = Deleted\<rparr>,
      \<lparr>todo_id = 1, content = ''buy milk'', status = Active\<rparr>]"
    by code_simp
  have pick: "filter (\<lambda>r. status r = Active)
     [\<lparr>todo_id = 3, content = ''call mum'', status = Active\<rparr>,
      \<lparr>todo_id = 2, content = ''Walk dog'', status = Deleted\<rparr>,
      \<lparr>todo_id = 1, content = ''buy milk'', status = Active\<rparr>] =
     [\<lparr>todo_id = 3, content = ''call mum'', status = Active\<rparr>,
      \<lparr>todo_id = 1, content = ''buy milk'', status = Active\<rparr>]"
    by simp
  from list have "readTodo_res False ?db = filter (\<lambda>r. status r = Active) (readTodo_res True ?db)"
    by (rule conjunct1)
  then have active: "readTodo_res False ?db =
     [\<lparr>todo_id = 3, content = ''call mum'', status = Active\<rparr>,
      \<lparr>todo_id = 1, content = ''buy milk'', status = Active\<rparr>]"
    by (simp only: all pick)
  have "filter (\<lambda>r. status r = Deleted) (todos ?db) \<noteq> []"
    by code_simp
  then have deleted: "\<exists>r \<in> set (todos ?db). status r = Deleted"
    by (simp only: filter_empty_conv) blast
  from list have "set (readTodo_res False ?db) \<subset> set (readTodo_res True ?db)
        \<longleftrightarrow> (\<exists>r \<in> set (todos ?db). status r = Deleted)"
    by (elim conjE)
  with deleted have strict: "set (readTodo_res False ?db) \<subset> set (readTodo_res True ?db)"
    by (rule iffD2 [rotated])
  show ?thesis
    by (intro conjI all active strict)
qed

subsection \<open>What a call leaves of the table\<close>

lemma ids_status_update:
  "map todo_id (map (\<lambda>r. if cond r then r\<lparr>status := st\<rparr> else r) rs) = map todo_id rs"
  by (induction rs) simp_all

lemma contents_status_update:
  "map content (map (\<lambda>r. if cond r then r\<lparr>status := st\<rparr> else r) rs) = map content rs"
  by (induction rs) simp_all

lemma todos_addTodo:
  "todos (snd (addTodo c db)) =
     (if todos_id_seq db \<le> int4_max \<and> todos_id_seq db \<notin> todo_id ` set (todos db)
      then todos db @ [\<lparr>todo_id = todos_id_seq db, content = c, status = Active\<rparr>]
      else todos db)"
  by (simp add: addTodo_def insert_todo_def Let_def)

lemma todos_deleteTodo:
  "todos (snd (deleteTodo k db)) =
     map (\<lambda>r. if ilike (content r) (keyword_pattern k) then r\<lparr>status := Deleted\<rparr> else r) (todos db)"
  by (simp add: deleteTodo_def deleteTodo_res_def update_status_def)

lemma todos_restoreTodo:
  "todos (snd (restoreTodo k db)) =
     map (\<lambda>r. if ilike (content r) (keyword_pattern k) \<and> status r = Deleted
               then r\<lparr>status := Active\<rparr> else r) (todos db)"
  by (simp add: restoreTodo_def restoreTodo_res_def update_status_def)

lemma snd_searchTodo: "snd (searchTodo q db) = db"
  by (simp add: searchTodo_def split: sum.splits)

lemma snd_readTodo: "snd (readTodo a db) = db"
  by (simp add: readTodo_def)

lemma invoke_cases:
  obtains (kept) "map todo_id (todos (snd (invoke call db))) = map todo_id (todos db)"
      and "map content (todos (snd (invoke call db))) = map content (todos db)"
  | (added) c where "call = Add c" and "todos_id_seq db \<notin> todo_id ` set (todos db)"
      and "todos (snd (invoke call db)) =
            todos db @ [\<lparr>todo_id = todos_id_seq db, content = c, status = Active\<rparr>]"
proof (cases call)
  case (Add c)
  show ?thesis
  proof (cases "todos_id_seq db \<le> int4_max \<and> todos_id_seq db \<notin> todo_id ` set (todos db)")
    case True
    with Add show ?thesis
      by (intro added [of c]) (simp_all add: todos_addTodo)
  next
    case False
    with Add show ?thesis
      by (intro kept) (simp_all add: todos_addTodo)
  qed
next
  case (Delete k)
  then show ?thesis
    by (intro kept) (simp_all add: todos_deleteTodo ids_status_update contents_status_update)
next
  case (Search q)
  then show ?thesis
    by (intro kept) (simp_all add: snd_searchTodo)
next
  case (Restore k)
  then show ?thesis
    by (intro kept) (simp_all add: todos_restoreTodo ids_status_update contents_status_update)
next
  case (Read a)
  then show ?thesis
    by (intro kept) (simp_all add: snd_readTodo)
qed

lemma primary_key_invoke:
  assumes "primary_key db"
  shows "primary_key (snd (invoke call db))"
proof (cases call db rule: invoke_cases)
  case kept
  with assms show ?thesis
    by (simp add: primary_key_def)
next
  case (added c)
  with assms show ?thesis
    by (simp add: primary_key_def)
qed

lemma primary_key_run: "primary_key db \<Longrightarrow> primary_key (run calls db)"
  by (induction calls arbitrary: db) (simp_all add: primary_key_invoke)

lemma primary_key_reachable: "primary_key (run calls empty_store)"
  by (rule primary_key_run) (simp add: primary_key_def empty_store_def)

lemma contents_invoke:
  "set (map content (todos (snd (invoke call db)))) \<subseteq>
     set (map content (todos db)) \<union> {c. call = Add c}"
proof (cases call db rule: invoke_cases)
  case kept
  then show ?thesis
    by (simp only: Un_upper1)
next
  case (added c)
  then show ?thesis
    by auto
qed

lemma contents_run:
  "set (map content (todos (run calls db))) \<subseteq>
     set (map content (todos db)) \<union> {c. Add c \<in> set calls}"
proof (induction calls arbitrary: db)
  case Nil
  then show ?case by simp
next
  case (Cons call calls)
  have "set (map content (todos (run (call # calls) db))) \<subseteq>
      set (map content (todos (snd (invoke call db)))) \<union> {c. Add c \<in> set calls}"
    using Cons.IH [of "snd (invoke call db)"] by simp
  also have "\<dots> \<subseteq> (set (map content (todos db)) \<union> {c. call = Add c}) \<union> {c. Add c \<in> set calls}"
    using contents_invoke [of call db] by blast
  also have "\<dots> \<subseteq> set (map content (todos db)) \<union> {c. Add c \<in> set (call # calls)}"
    by auto
  finally show ?case .
qed

text \<open>
  C8. Add only accepts a non-empty content, so no reachable table has a row with empty
  content. The code does not do that: the schema of the tool is \<^verbatim>\<open>z.string()\<close> and the
  column is \<^verbatim>\<open>TEXT NOT NULL\<close>, both of which admit the empty string; Add of the empty
  string on the empty table replies \<^verbatim>\<open>Added: ""\<close> and stores a row with empty content.
\<close>

theorem C8_empty_content_stored:
  "map content (todos (run [Add ''''] empty_store)) = ['''']
   \<and> fst (invoke (Add '''') empty_store) = Inr [CHR ''A'', CHR ''d'', CHR ''d'', CHR ''e'', CHR ''d'', CHR '':'', CHR '' '', CHR 0x22, CHR 0x22]"
  by code_simp

text \<open>
  C8, amended. The content of every row of a table reached from the empty one is a string
  that was passed to Add; Add accepts every string, the empty one included, and stores it
  as it is in a new active row whenever the sequence delivers a fresh id.
\<close>

theorem C8_contents_are_added_strings:
  "(\<forall>r \<in> set (todos (run calls empty_store)). Add (content r) \<in> set calls)
   \<and> (todos_id_seq db \<le> int4_max \<and> todos_id_seq db \<notin> todo_id ` set (todos db) \<longrightarrow>
        todos (snd (addTodo c db)) =
          todos db @ [\<lparr>todo_id = todos_id_seq db, content = c, status = Active\<rparr>])"
proof (intro conjI impI ballI)
  fix r
  assume "r \<in> set (todos (run calls empty_store))"
  then have "content r \<in> set (map content (todos (run calls empty_store)))"
    by simp
  with contents_run [of calls empty_store] have "content r \<in> {c. Add c \<in> set calls}"
    by (auto simp: empty_store_def)
  then show "Add (content r) \<in> set calls"
    by simp
next
  assume "todos_id_seq db \<le> int4_max \<and> todos_id_seq db \<notin> todo_id ` set (todos db)"
  then show "todos (snd (addTodo c db)) =
          todos db @ [\<lparr>todo_id = todos_id_seq db, content = c, status = Active\<rparr>]"
    by (simp add: todos_addTodo)
qed

text \<open>
  C9. Whatever the call (Add, Delete, Restore, Search, List), every row of the table is
  still there afterwards with the id and the content it had: the table after the call
  begins with as many rows as it had before, with the same ids and the same contents in the
  same order. Only the status of a row can differ.
\<close>

theorem C9_rows_kept_id_content_fixed:
  "length (todos db) \<le> length (todos (snd (invoke call db)))
   \<and> map todo_id (take (length (todos db)) (todos (snd (invoke call db)))) = map todo_id (todos db)
   \<and> map content (take (length (todos db)) (todos (snd (invoke call db)))) = map content (todos db)"
proof (cases call db rule: invoke_cases)
  case kept
  from kept(1) have "length (todos (snd (invoke call db))) = length (todos db)"
    by (rule map_eq_imp_length_eq)
  with kept show ?thesis
    by simp
next
  case (added c)
  then show ?thesis
    by simp
qed

text \<open>
  C9 at a table of two rows: after Delete(milk), and after Add(call mum), the first two
  rows have the ids 1, 2 and the contents they had.
\<close>

theorem C9_rows_kept_id_content_fixed_witness:
  "length (todos (run [Add ''buy milk'', Add ''Walk dog''] empty_store)) = 2
   \<and> map todo_id (take 2 (todos (snd (invoke (Delete ''milk'')
          (run [Add ''buy milk'', Add ''Walk dog''] empty_store))))) = [1, 2]
   \<and> map content (take 2 (todos (snd (invoke (Delete ''milk'')
          (run [Add ''buy milk'', Add ''Walk dog''] empty_store))))) = [''buy milk'', ''Walk dog'']
   \<and> map todo_id (take 2 (todos (snd (invoke (Add ''call mum'')
          (run [Add ''buy milk'', Add ''Walk dog''] empty_store))))) = [1, 2]
   \<and> map content (take 2 (todos (snd (invoke (Add ''call mum'')
          (run [Add ''buy milk'', Add ''Walk dog''] empty_store))))) = [''buy milk'', ''Walk dog'']"
proof -
  let ?db = "run [Add ''buy milk'', Add ''Walk dog''] empty_store"
  have len: "length (todos ?db) = 2"
    by code_simp
  have ids: "map todo_id (todos ?db) = [1, 2]"
    by code_simp
  have contents: "map content (todos ?db) = [''buy milk'', ''Walk dog'']"
    by code_simp
  note del = C9_rows_kept_id_content_fixed [of ?db "Delete ''milk''"]
  note add = C9_rows_kept_id_content_fixed [of ?db "Add ''call mum''"]
  from del have d1: "map todo_id (take 2 (todos (snd (invoke (Delete ''milk'') ?db)))) = [1, 2]"
    unfolding len ids by (elim conjE)
  from del have d2: "map content (take 2 (todos (snd (invoke (Delete ''milk'') ?db)))) =
      [''buy milk'', ''Walk dog'']"
    unfolding len contents by (elim conjE)
  from add have a1: "map todo_id (take 2 (todos (snd (invoke (Add ''call mum'') ?db)))) = [1, 2]"
    unfolding len ids by (elim conjE)
  from add have a2: "map content (take 2 (todos (snd (invoke (Add ''call mum'') ?db)))) =
      [''buy milk'', ''Walk dog'']"
    unfolding len contents by (elim conjE)
  show ?thesis
    by (intro conjI len d1 d2 a1 a2)
qed

text \<open>
  C8, amended, at the calls Add(buy milk), Add of the empty string, Delete(milk): row 2 has
  the empty content, which was passed to Add.
\<close>

theorem C8_contents_are_added_strings_witness:
  "\<lparr>todo_id = 2, content = [], status = Active\<rparr>
     \<in> set (todos (run [Add ''buy milk'', Add [], Delete ''milk''] empty_store))
   \<and> Add [] \<in> set [Add ''buy milk'', Add [], Delete ''milk'']
   \<and> todos_id_seq empty_store \<le> int4_max
   \<and> todos_id_seq empty_store \<notin> todo_id ` set (todos empty_store)
   \<and> todos (snd (addTodo [] empty_store)) = [\<lparr>todo_id = 1, content = [], status = Active\<rparr>]"
proof -
  let ?calls = "[Add ''buy milk'', Add [], Delete ''milk'']"
  let ?r = "\<lparr>todo_id = 2, content = [], status = Active\<rparr>"
  note inst = C8_contents_are_added_strings [of ?calls empty_store "[]"]
  have row: "?r \<in> set (todos (run ?calls empty_store))"
    by code_simp
  with inst have "Add (content ?r) \<in> set ?calls"
    by blast
  then have added: "Add [] \<in> set ?calls"
    by simp
  have seq: "todos_id_seq empty_store \<le> int4_max"
    by (simp add: empty_store_def int4_max_def)
  have fresh: "todos_id_seq empty_store \<notin> todo_id ` set (todos empty_store)"
    by (simp add: empty_store_def)
  from inst seq fresh
  have "todos (snd (addTodo [] empty_store)) =
      todos empty_store @ [\<lparr>todo_id = todos_id_seq empty_store, content = [], status = Active\<rparr>]"
    by blast
  then have stored: "todos (snd (addTodo [] empty_store)) =
      [\<lparr>todo_id = 1, content = [], status = Active\<rparr>]"
    by (simp add: empty_store_def)
  show ?thesis
    by (intro conjI row added seq fresh stored)
qed

end
